theory Spec2Isabelle
  imports Main "HOL-Library.Multiset" "HOL-Library.List_Lexorder" "HOL-Library.Char_ord"
begin

section \<open>The URL shortener (shorturl-service/main.py)\<close>

subsection \<open>The table \<open>urls\<close>\<close>

text \<open>
  One row of the table created by \<open>init_db\<close>:
  \<^verbatim>\<open>id INTEGER PRIMARY KEY AUTOINCREMENT, short_id TEXT UNIQUE NOT NULL,
  full_url TEXT NOT NULL, created_at TIMESTAMP DEFAULT CURRENT_TIMESTAMP,
  clicks INTEGER DEFAULT 0\<close>.
  The column \<open>id\<close> is called \<open>row_id\<close> here. \<open>created_at\<close> is the text that
  \<open>CURRENT_TIMESTAMP\<close> yields, compared as SQLite compares text (byte by byte), which is the
  lexicographic order on strings. \<open>clicks\<close> is an unbounded integer: the 64-bit limit of an
  SQLite INTEGER is out of reach of a counter that grows by one per request.
\<close>

record url_row =
  row_id :: nat
  short_id :: string
  full_url :: string
  created_at :: string
  clicks :: int

text \<open>
  The database file: the rows of \<open>urls\<close> in rowid order, and the entry of \<open>sqlite_sequence\<close>
  that AUTOINCREMENT keeps (the largest rowid ever handed out).
\<close>

record db =
  urls :: "url_row list"
  seq :: nat

definition init_db :: db where
  "init_db = \<lparr>urls = [], seq = 0\<rparr>"

text \<open>
  What a handler can raise: \<open>HTTPException(status_code=404)\<close>, and the
  \<open>sqlite3.IntegrityError\<close> of an INSERT that violates \<open>UNIQUE\<close>, which no handler catches.
\<close>

datatype error = NotFound | IntegrityError

subsection \<open>Random codes\<close>

text \<open>
  The random generator is the infinite sequence of the numbers it is still going to produce.
  \<open>random.choice(seq)\<close> takes the next number, reduced to an index of \<open>seq\<close>; every index
  can come out, and nothing else. It is only ever called on the 62 characters below.
\<close>

type_synonym rng = "nat \<Rightarrow> nat"

definition ascii_lowercase :: string where
  "ascii_lowercase = ''abcdefghijklmnopqrstuvwxyz''"

definition ascii_uppercase :: string where
  "ascii_uppercase = ''ABCDEFGHIJKLMNOPQRSTUVWXYZ''"

definition digits :: string where
  "digits = ''0123456789''"

definition ascii_letters :: string where
  "ascii_letters = ascii_lowercase @ ascii_uppercase"

definition characters :: string where
  "characters = ascii_letters @ digits"

definition random_choice :: "'a list \<Rightarrow> rng \<Rightarrow> 'a \<times> rng" where
  "random_choice xs r = (xs ! (r 0 mod length xs), \<lambda>i. r (Suc i))"

text \<open>\<open>generate_short_id(length)\<close>: \<open>length\<close> independent choices, joined.\<close>

fun generate_short_id :: "nat \<Rightarrow> rng \<Rightarrow> string \<times> rng" where
  "generate_short_id 0 r = ([], r)"
| "generate_short_id (Suc n) r =
     (let (c, r') = random_choice characters r;
          (cs, r'') = generate_short_id n r'
      in (c # cs, r''))"

subsection \<open>Statements on the table\<close>

text \<open>\<open>SELECT ... WHERE short_id = ?\<close> and \<open>WHERE full_url = ?\<close> followed by \<open>fetchone()\<close>.\<close>

definition select_by_short_id :: "url_row list \<Rightarrow> string \<Rightarrow> url_row option" where
  "select_by_short_id rows sid = find (\<lambda>row. short_id row = sid) rows"

definition select_by_full_url :: "url_row list \<Rightarrow> string \<Rightarrow> url_row option" where
  "select_by_full_url rows url = find (\<lambda>row. full_url row = url) rows"

definition max_rowid :: "url_row list \<Rightarrow> nat" where
  "max_rowid rows = foldr max (map row_id rows) 0"

text \<open>
  \<open>INSERT INTO urls (short_id, full_url) VALUES (?, ?)\<close>. The store refuses a second row
  with the same \<open>short_id\<close>; otherwise the row gets the next rowid, the current time and
  zero clicks.
\<close>

definition insert_url :: "db \<Rightarrow> string \<Rightarrow> string \<Rightarrow> string \<Rightarrow> error + db" where
  "insert_url d sid url now =
     (if select_by_short_id (urls d) sid \<noteq> None then Inl IntegrityError
      else let i = Suc (max (seq d) (max_rowid (urls d)))
           in Inr \<lparr>urls = urls d @
                      [\<lparr>row_id = i, short_id = sid, full_url = url, created_at = now, clicks = 0\<rparr>],
                    seq = i\<rparr>)"

text \<open>\<open>UPDATE urls SET clicks = clicks + 1 WHERE short_id = ?\<close>\<close>

definition update_clicks :: "url_row list \<Rightarrow> string \<Rightarrow> url_row list" where
  "update_clicks rows sid =
     map (\<lambda>row. if short_id row = sid then row\<lparr>clicks := clicks row + 1\<rparr> else row) rows"

text \<open>\<open>DELETE FROM urls WHERE short_id = ?\<close>\<close>

definition delete_rows :: "url_row list \<Rightarrow> string \<Rightarrow> url_row list" where
  "delete_rows rows sid = filter (\<lambda>row. short_id row \<noteq> sid) rows"

subsection \<open>POST /shorten\<close>

record shorten_reply =
  reply_short_id :: string
  short_url :: string
  reply_full_url :: string
  message :: "string option"

text \<open>
  The loop \<open>while True: short_id = generate_short_id(); ...; if not cursor.fetchone(): break\<close>.
  It has no bound, so it is a partial function: \<open>None\<close> is a loop that never exits.
\<close>

partial_function (option) fresh_short_id :: "url_row list \<Rightarrow> rng \<Rightarrow> (string \<times> rng) option" where
  "fresh_short_id rows r =
     (let (sid, r') = generate_short_id 6 r
      in if select_by_short_id rows sid = None then Some (sid, r')
         else fresh_short_id rows r')"

text \<open>The statements after the loop: the INSERT, the commit and the reply.\<close>

definition shorten_url_commit ::
    "db \<Rightarrow> string \<Rightarrow> string \<Rightarrow> string \<Rightarrow> (error + shorten_reply) \<times> db" where
  "shorten_url_commit d sid url now =
     (case insert_url d sid url now of
        Inl e \<Rightarrow> (Inl e, d)
      | Inr d' \<Rightarrow>
          (Inr \<lparr>reply_short_id = sid, short_url = ''http://localhost:8001/'' @ sid,
                reply_full_url = url, message = None\<rparr>, d'))"

text \<open>
  \<open>shorten_url\<close>, for the string \<open>str(url_data.url)\<close>, the time \<open>now\<close> of the insert and the
  generator \<open>r\<close>. The result is the reply (or the exception), the database afterwards and the
  generator afterwards; \<open>None\<close> when the loop never exits.
\<close>

definition shorten_url ::
    "db \<Rightarrow> string \<Rightarrow> string \<Rightarrow> rng \<Rightarrow> (((error + shorten_reply) \<times> db) \<times> rng) option" where
  "shorten_url d url now r =
     (case select_by_full_url (urls d) url of
        Some existing \<Rightarrow>
          Some ((Inr \<lparr>reply_short_id = short_id existing,
                      short_url = ''http://localhost:8001/'' @ short_id existing,
                      reply_full_url = url, message = Some ''URL already exists''\<rparr>, d), r)
      | None \<Rightarrow>
          (case fresh_short_id (urls d) r of
             None \<Rightarrow> None
           | Some (sid, r') \<Rightarrow> Some (shorten_url_commit d sid url now, r')))"

text \<open>
  The same handler when other connections commit between its last probe and its INSERT:
  \<open>other\<close> is what they do to the database. The handler opens no transaction before the
  INSERT, so this interleaving is possible.
\<close>

definition shorten_url_interleaved ::
    "(db \<Rightarrow> db) \<Rightarrow> db \<Rightarrow> string \<Rightarrow> string \<Rightarrow> rng \<Rightarrow>
     (((error + shorten_reply) \<times> db) \<times> rng) option" where
  "shorten_url_interleaved other d url now r =
     (case select_by_full_url (urls d) url of
        Some existing \<Rightarrow>
          Some ((Inr \<lparr>reply_short_id = short_id existing,
                      short_url = ''http://localhost:8001/'' @ short_id existing,
                      reply_full_url = url, message = Some ''URL already exists''\<rparr>, d), r)
      | None \<Rightarrow>
          (case fresh_short_id (urls d) r of
             None \<Rightarrow> None
           | Some (sid, r') \<Rightarrow> Some (shorten_url_commit (other d) sid url now, r')))"

subsection \<open>GET /all, GET /stats, DELETE /delete, GET /{short_id}\<close>

text \<open>
  \<open>SELECT * FROM urls ORDER BY created_at DESC\<close>. SQL leaves the order of rows with equal
  \<open>created_at\<close> open; here they come out latest rowid first.
\<close>

definition get_all_urls :: "db \<Rightarrow> url_row list \<times> db" where
  "get_all_urls d = (rev (sort_key created_at (urls d)), d)"

record stats_reply =
  stats_short_id :: string
  stats_full_url :: string
  stats_created_at :: string
  stats_clicks :: int

definition get_stats :: "db \<Rightarrow> string \<Rightarrow> (error + stats_reply) \<times> db" where
  "get_stats d sid =
     (case select_by_short_id (urls d) sid of
        None \<Rightarrow> (Inl NotFound, d)
      | Some result \<Rightarrow>
          (Inr \<lparr>stats_short_id = short_id result, stats_full_url = full_url result,
                stats_created_at = created_at result, stats_clicks = clicks result\<rparr>, d))"

definition delete_url :: "db \<Rightarrow> string \<Rightarrow> (error + string) \<times> db" where
  "delete_url d sid =
     (case select_by_short_id (urls d) sid of
        None \<Rightarrow> (Inl NotFound, d)
      | Some url \<Rightarrow> (Inr ''URL deleted successfully'', d\<lparr>urls := delete_rows (urls d) sid\<rparr>))"

text \<open>The redirect: the reply is the target of the \<open>RedirectResponse\<close>.\<close>

definition redirect_to_url :: "db \<Rightarrow> string \<Rightarrow> (error + string) \<times> db" where
  "redirect_to_url d sid =
     (case select_by_short_id (urls d) sid of
        None \<Rightarrow> (Inl NotFound, d)
      | Some result \<Rightarrow> (Inr (full_url result), d\<lparr>urls := update_clicks (urls d) sid\<rparr>))"

subsection \<open>Sequences of requests\<close>

text \<open>
  A request to one of the handlers that reach the table, with its arguments
  (\<open>Shorten url now\<close>). \<open>/qrcode\<close> and \<open>/\<close> do not touch the database.
\<close>

datatype request =
  Shorten string string | GetAll | Stats string | Delete string | Redirect string

fun handle :: "db \<times> rng \<Rightarrow> request \<Rightarrow> (db \<times> rng) option" where
  "handle (d, r) (Shorten url now) =
     (case shorten_url d url now r of None \<Rightarrow> None | Some ((_, d'), r') \<Rightarrow> Some (d', r'))"
| "handle (d, r) GetAll = Some (snd (get_all_urls d), r)"
| "handle (d, r) (Stats sid) = Some (snd (get_stats d sid), r)"
| "handle (d, r) (Delete sid) = Some (snd (delete_url d sid), r)"
| "handle (d, r) (Redirect sid) = Some (snd (redirect_to_url d sid), r)"

fun run :: "db \<times> rng \<Rightarrow> request list \<Rightarrow> (db \<times> rng) option" where
  "run w [] = Some w"
| "run w (q # qs) = (case handle w q of None \<Rightarrow> None | Some w' \<Rightarrow> run w' qs)"

text \<open>The candidate of the \<open>k\<close>-th pass through the loop (from 0), and the generator after it.\<close>

definition skip :: "nat \<Rightarrow> rng \<Rightarrow> rng" where
  "skip n r = (\<lambda>i. r (i + n))"

definition candidate :: "nat \<Rightarrow> rng \<Rightarrow> string" where
  "candidate k r = fst (generate_short_id 6 (skip (6 * k) r))"



text \<open>
  A generator given by the numbers it produces first, and zeros ever after; used for the
  concrete runs below.
\<close>

definition rng_of :: "nat list \<Rightarrow> rng" where
  "rng_of xs = (\<lambda>i. if i < length xs then xs ! i else 0)"

subsection \<open>Concrete stores and generators\<close>

text \<open>Rows and the stores that hold them.\<close>

definition row_a :: url_row where
  "row_a = \<lparr>row_id = 1, short_id = ''aaaaaa'', full_url = ''https://example.com/a'',
            created_at = ''2024-01-01 10:00:00'', clicks = 0\<rparr>"

definition db_a :: db where
  "db_a = \<lparr>urls = [row_a], seq = 1\<rparr>"

definition row_b :: url_row where
  "row_b = \<lparr>row_id = 2, short_id = ''bbbbbb'', full_url = ''https://example.com/b'',
            created_at = ''2024-01-01 10:00:05'', clicks = 0\<rparr>"

definition db_ab :: db where
  "db_ab = \<lparr>urls = [row_a, row_b], seq = 2\<rparr>"


text \<open>
  Another connection that commits a row with the code \<open>bbbbbb\<close> (if the store lets it).
\<close>

definition racing_insert :: "db \<Rightarrow> db" where
  "racing_insert d =
     (case insert_url d ''bbbbbb'' ''https://example.com/c'' ''2024-01-01 10:00:04'' of
        Inl e \<Rightarrow> d
      | Inr d' \<Rightarrow> d')"

section \<open>The to-do list (todo-service/main.py)\<close>

text \<open>
  A row of \<open>tasks\<close>: \<open>id INTEGER PRIMARY KEY AUTOINCREMENT, title TEXT NOT NULL,
  description TEXT, completed BOOLEAN NOT NULL DEFAULT 0\<close>; \<open>completed\<close> is stored as 0 or 1
  and read here as a truth value. \<open>TaskUpdate\<close> is the body of the PUT request, every field
  optional.
\<close>

record task =
  task_id :: int
  title :: string
  description :: "string option"
  completed :: bool

record task_update =
  upd_title :: "string option"
  upd_description :: "string option"
  upd_completed :: "bool option"

text \<open>One entry of \<open>update_fields\<close> with its value in \<open>update_values\<close>.\<close>

datatype assignment = SetTitle string | SetDescription string | SetCompleted bool

fun assign :: "assignment \<Rightarrow> task \<Rightarrow> task" where
  "assign (SetTitle s) t = t\<lparr>title := s\<rparr>"
| "assign (SetDescription s) t = t\<lparr>description := Some s\<rparr>"
| "assign (SetCompleted b) t = t\<lparr>completed := b\<rparr>"

definition update_fields :: "task_update \<Rightarrow> assignment list" where
  "update_fields u =
     (case upd_title u of None \<Rightarrow> [] | Some s \<Rightarrow> [SetTitle s]) @
     (case upd_description u of None \<Rightarrow> [] | Some s \<Rightarrow> [SetDescription s]) @
     (case upd_completed u of None \<Rightarrow> [] | Some b \<Rightarrow> [SetCompleted b])"

text \<open>\<open>UPDATE tasks SET ... WHERE id = ?\<close>\<close>

definition update_tasks :: "task list \<Rightarrow> assignment list \<Rightarrow> int \<Rightarrow> task list" where
  "update_tasks tasks fs item_id =
     map (\<lambda>t. if task_id t = item_id then fold assign fs t else t) tasks"

text \<open>
  \<open>cursor.execute\<close> binds \<open>item_id\<close> to the \<open>?\<close> of the statement. \<open>sqlite3\<close> binds a Python
  integer only when it fits a signed 64-bit INTEGER and raises \<open>OverflowError\<close> otherwise;
  the path parameter \<open>item_id: int\<close> is any integer the client writes.
\<close>

datatype todo_error = TaskNotFound | TypeError | OverflowError

definition bind_integer :: "int \<Rightarrow> todo_error + int" where
  "bind_integer i = (if - (2 ^ 63) \<le> i \<and> i < 2 ^ 63 then Inr i else Inl OverflowError)"

text \<open>\<open>SELECT * FROM tasks WHERE id = ?\<close> followed by \<open>fetchone()\<close>.\<close>

definition select_task :: "task list \<Rightarrow> int \<Rightarrow> todo_error + task option" where
  "select_task tasks item_id =
     (case bind_integer item_id of
        Inl e \<Rightarrow> Inl e
      | Inr i \<Rightarrow> Inr (find (\<lambda>t. task_id t = i) tasks))"

text \<open>
  \<open>update_task\<close>. An exception of the first SELECT leaves the handler before anything is
  written; the UPDATE binds the same \<open>item_id\<close> that the first SELECT has bound.
  \<open>dict(updated_task)\<close> raises \<open>TypeError\<close> when the second SELECT finds no row.
\<close>

definition update_task ::
    "task list \<Rightarrow> int \<Rightarrow> task_update \<Rightarrow> (todo_error + task) \<times> task list" where
  "update_task tasks item_id u =
     (case select_task tasks item_id of
        Inl e \<Rightarrow> (Inl e, tasks)
      | Inr None \<Rightarrow> (Inl TaskNotFound, tasks)
      | Inr (Some existing_task) \<Rightarrow>
          (let tasks' = (if update_fields u \<noteq> []
                         then update_tasks tasks (update_fields u) item_id else tasks)
           in case select_task tasks' item_id of
                Inl e \<Rightarrow> (Inl e, tasks')
              | Inr None \<Rightarrow> (Inl TypeError, tasks')
              | Inr (Some updated_task) \<Rightarrow> (Inr updated_task, tasks')))"

text \<open>The task after the update: the fields present in the body replaced, the others kept.\<close>

definition updated :: "task_update \<Rightarrow> task \<Rightarrow> task" where
  "updated u t =
     \<lparr>task_id = task_id t,
      title = (case upd_title u of None \<Rightarrow> title t | Some s \<Rightarrow> s),
      description = (case upd_description u of None \<Rightarrow> description t | Some s \<Rightarrow> Some s),
      completed = (case upd_completed u of None \<Rightarrow> completed t | Some b \<Rightarrow> b)\<rparr>"

section \<open>The generator of codes\<close>

lemma length_characters: "length characters = 62"
  by (simp add: characters_def ascii_letters_def ascii_lowercase_def ascii_uppercase_def digits_def)

lemma distinct_characters: "distinct characters"
  by (simp add: characters_def ascii_letters_def ascii_lowercase_def ascii_uppercase_def digits_def)

lemma random_choice_characters: "fst (random_choice characters r) \<in> set characters"
  by (simp add: random_choice_def length_characters)

lemma snd_random_choice: "snd (random_choice xs r) = skip 1 r"
  by (simp add: random_choice_def skip_def)

lemma length_generate_short_id: "length (fst (generate_short_id n r)) = n"
  by (induction n arbitrary: r) (simp_all add: split_def Let_def)

lemma set_generate_short_id: "set (fst (generate_short_id n r)) \<subseteq> set characters"
  by (induction n arbitrary: r) (simp_all add: split_def Let_def random_choice_characters)

lemma skip_skip: "skip m (skip n r) = skip (n + m) r"
  by (simp add: skip_def ac_simps)

lemma skip_0: "skip 0 r = r"
  by (simp add: skip_def)

lemma snd_generate_short_id: "snd (generate_short_id n r) = skip n r"
proof (induction n arbitrary: r)
  case 0
  show ?case by (simp add: skip_0)
next
  case (Suc n)
  show ?case by (simp add: split_def Let_def Suc snd_random_choice skip_skip)
qed

lemma generate_short_id_eq: "generate_short_id 6 r = (candidate 0 r, skip 6 r)"
  by (simp add: candidate_def skip_0 prod_eq_iff snd_generate_short_id)

lemma candidate_skip: "candidate k (skip 6 r) = candidate (Suc k) r"
  by (simp add: candidate_def skip_skip)

lemma fresh_short_id_unfold:
  "fresh_short_id rows r =
     (if select_by_short_id rows (candidate 0 r) = None then Some (candidate 0 r, skip 6 r)
      else fresh_short_id rows (skip 6 r))"
  by (subst fresh_short_id.simps) (simp add: generate_short_id_eq)

lemma fresh_short_id_first:
  "select_by_short_id rows (candidate n r) = None \<Longrightarrow>
   (\<forall>k<n. select_by_short_id rows (candidate k r) \<noteq> None) \<Longrightarrow>
   fresh_short_id rows r = Some (candidate n r, skip (6 * Suc n) r)"
proof (induction n arbitrary: r)
  case 0
  then show ?case by (subst fresh_short_id_unfold) simp
next
  case (Suc n)
  have taken: "select_by_short_id rows (candidate 0 r) \<noteq> None"
    using Suc.prems(2) by blast
  have "fresh_short_id rows (skip 6 r) = Some (candidate n (skip 6 r), skip (6 * Suc n) (skip 6 r))"
  proof (rule Suc.IH)
    show "select_by_short_id rows (candidate n (skip 6 r)) = None"
      using Suc.prems(1) by (simp add: candidate_skip)
    show "\<forall>k<n. select_by_short_id rows (candidate k (skip 6 r)) \<noteq> None"
      using Suc.prems(2) by (simp add: candidate_skip)
  qed
  then show ?case
    using taken by (subst fresh_short_id_unfold) (auto simp: candidate_skip skip_skip)
qed

lemma fresh_short_id_Some_ex:
  assumes "fresh_short_id rows r = Some y"
  shows "\<exists>n. select_by_short_id rows (candidate n r) = None"
proof (rule fresh_short_id.raw_induct [OF _ assms])
  fix f rows r and y :: "string \<times> rng"
  assume 1: "\<And>rows r y. f rows r = Some y \<Longrightarrow> \<exists>n. select_by_short_id rows (candidate n r) = None"
    "(let (sid, r') = generate_short_id 6 r
      in if select_by_short_id rows sid = None then Some (sid, r') else f rows r') = Some y"
  show "\<exists>n. select_by_short_id rows (candidate n r) = None"
  proof (cases "select_by_short_id rows (candidate 0 r) = None")
    case True
    then show ?thesis by blast
  next
    case False
    with 1(2) have "f rows (skip 6 r) = Some y"
      by (simp add: generate_short_id_eq)
    then obtain n where "select_by_short_id rows (candidate n (skip 6 r)) = None"
      using 1(1) by blast
    then show ?thesis by (auto simp: candidate_skip)
  qed
qed

lemma fresh_short_id_None:
  "(\<forall>k. select_by_short_id rows (candidate k r) \<noteq> None) \<Longrightarrow> fresh_short_id rows r = None"
proof (cases "fresh_short_id rows r")
  case None
  then show ?thesis .
next
  case (Some y)
  assume all: "\<forall>k. select_by_short_id rows (candidate k r) \<noteq> None"
  from fresh_short_id_Some_ex [OF Some] obtain n
    where "select_by_short_id rows (candidate n r) = None" ..
  with all show ?thesis by blast
qed

lemma skip_rng_of: "skip n (rng_of xs) = rng_of (drop n xs)"
  by (auto simp: skip_def rng_of_def fun_eq_iff ac_simps)

lemma random_choice_rng_of_Nil: "random_choice characters (rng_of []) = (CHR ''a'', rng_of [])"
  by (simp add: random_choice_def rng_of_def characters_def ascii_letters_def ascii_lowercase_def)

lemma random_choice_rng_of_Cons:
  "random_choice characters (rng_of (x # xs)) = (characters ! (x mod 62), rng_of xs)"
  by (auto simp: random_choice_def rng_of_def length_characters fun_eq_iff)

lemma generate_short_id_rng_of_Nil:
  "generate_short_id (Suc n) (rng_of []) =
     (let (cs, r') = generate_short_id n (rng_of []) in (CHR ''a'' # cs, r'))"
  by (simp add: random_choice_rng_of_Nil)

lemma generate_short_id_rng_of_Cons:
  "generate_short_id (Suc n) (rng_of (x # xs)) =
     (let (cs, r') = generate_short_id n (rng_of xs) in (characters ! (x mod 62) # cs, r'))"
  by (simp add: random_choice_rng_of_Cons)

lemma six: "(6::nat) = Suc (Suc (Suc (Suc (Suc (Suc 0)))))"
  by simp

lemmas generate_rng_of = six generate_short_id_rng_of_Nil generate_short_id_rng_of_Cons

lemmas characters_defs =
  characters_def ascii_letters_def ascii_lowercase_def ascii_uppercase_def digits_def

lemma fresh_short_id_SomeD:
  assumes "fresh_short_id rows r = Some (sid, r')"
  shows "\<exists>n. sid = candidate n r \<and> r' = skip (6 * Suc n) r \<and>
             select_by_short_id rows (candidate n r) = None \<and>
             (\<forall>k<n. select_by_short_id rows (candidate k r) \<noteq> None)"
proof -
  define n where "n = (LEAST n. select_by_short_id rows (candidate n r) = None)"
  from fresh_short_id_Some_ex [OF assms]
  have free: "select_by_short_id rows (candidate n r) = None"
    unfolding n_def by (rule LeastI_ex)
  have before: "\<forall>k<n. select_by_short_id rows (candidate k r) \<noteq> None"
    unfolding n_def using not_less_Least by blast
  from fresh_short_id_first [OF free before] assms show ?thesis
    using free before by auto
qed

lemma shorten_url_freshD:
  assumes "shorten_url d u now r = Some ((Inr rep, d'), r')" and "message rep = None"
  shows "select_by_full_url (urls d) u = None \<and>
         fresh_short_id (urls d) r = Some (reply_short_id rep, r') \<and>
         insert_url d (reply_short_id rep) u now = Inr d'"
  using assms
  by (auto simp: shorten_url_def shorten_url_commit_def split: option.splits sum.splits)

text \<open>
  Claim C7. Every code the generator produces has length exactly 6 and consists of characters
  of the alphabet, which is the 26 lowercase letters, the 26 uppercase letters and the 10
  digits, 62 different characters in all. Hence the code in the reply of \<open>shorten_url\<close> for a
  URL that was not stored before (the reply without a message) has this form too.
\<close>

theorem generate_short_id_format:
  "length (fst (generate_short_id 6 r)) = 6 \<and>
   set (fst (generate_short_id 6 r)) \<subseteq> set characters \<and>
   characters = ''abcdefghijklmnopqrstuvwxyzABCDEFGHIJKLMNOPQRSTUVWXYZ0123456789'' \<and>
   length characters = 62 \<and> distinct characters \<and>
   (shorten_url d u now r = Some ((Inr rep, d'), r') \<and> message rep = None \<longrightarrow>
      length (reply_short_id rep) = 6 \<and> set (reply_short_id rep) \<subseteq> set characters)"
proof -
  have "length (reply_short_id rep) = 6 \<and> set (reply_short_id rep) \<subseteq> set characters"
    if "shorten_url d u now r = Some ((Inr rep, d'), r')" and "message rep = None"
  proof -
    from shorten_url_freshD [OF that]
    have "fresh_short_id (urls d) r = Some (reply_short_id rep, r')" by simp
    from fresh_short_id_SomeD [OF this] obtain n where "reply_short_id rep = candidate n r"
      by blast
    then show ?thesis
      by (simp add: candidate_def length_generate_short_id set_generate_short_id)
  qed
  moreover have "characters = ''abcdefghijklmnopqrstuvwxyzABCDEFGHIJKLMNOPQRSTUVWXYZ0123456789''"
    by (simp add: characters_defs)
  ultimately show ?thesis
    by (simp add: length_generate_short_id set_generate_short_id length_characters
        distinct_characters del: generate_short_id.simps)
qed

subsection \<open>A first run\<close>

lemma fresh_short_id_example:
  "fresh_short_id [] (rng_of [0, 7, 14, 21, 28, 35]) = Some (''ahovCJ'', rng_of [])"
  by (subst fresh_short_id.simps)
    (simp add: generate_rng_of characters_defs select_by_short_id_def
      del: generate_short_id.simps(2))

lemma shorten_url_example:
  "shorten_url init_db ''https://example.com/a'' ''2024-01-01 10:00:00''
       (rng_of [0, 7, 14, 21, 28, 35]) =
     Some ((Inr \<lparr>reply_short_id = ''ahovCJ'', short_url = ''http://localhost:8001/ahovCJ'',
                 reply_full_url = ''https://example.com/a'', message = None\<rparr>,
            \<lparr>urls = [\<lparr>row_id = 1, short_id = ''ahovCJ'', full_url = ''https://example.com/a'',
                      created_at = ''2024-01-01 10:00:00'', clicks = 0\<rparr>], seq = 1\<rparr>),
           rng_of [])"
  by (simp add: shorten_url_def init_db_def select_by_full_url_def fresh_short_id_example
      shorten_url_commit_def insert_url_def select_by_short_id_def max_rowid_def)

theorem generate_short_id_format_witness:
  "shorten_url init_db ''https://example.com/a'' ''2024-01-01 10:00:00''
       (rng_of [0, 7, 14, 21, 28, 35]) =
     Some ((Inr \<lparr>reply_short_id = ''ahovCJ'', short_url = ''http://localhost:8001/ahovCJ'',
                 reply_full_url = ''https://example.com/a'', message = None\<rparr>,
            \<lparr>urls = [\<lparr>row_id = 1, short_id = ''ahovCJ'', full_url = ''https://example.com/a'',
                      created_at = ''2024-01-01 10:00:00'', clicks = 0\<rparr>], seq = 1\<rparr>),
           rng_of []) \<and>
   length ''ahovCJ'' = 6 \<and> set ''ahovCJ'' \<subseteq> set characters"
  using shorten_url_example
    generate_short_id_format [of "rng_of [0, 7, 14, 21, 28, 35]" init_db
      "''https://example.com/a''" "''2024-01-01 10:00:00''"
      "\<lparr>reply_short_id = ''ahovCJ'', short_url = ''http://localhost:8001/ahovCJ'',
                 reply_full_url = ''https://example.com/a'', message = None\<rparr>"
      "\<lparr>urls = [\<lparr>row_id = 1, short_id = ''ahovCJ'', full_url = ''https://example.com/a'',
                      created_at = ''2024-01-01 10:00:00'', clicks = 0\<rparr>], seq = 1\<rparr>"
      "rng_of []"]
  by simp

section \<open>The loop that looks for a free code\<close>

lemma candidate_rng_of_Nil: "candidate k (rng_of []) = ''aaaaaa''"
  by (simp add: candidate_def skip_rng_of generate_rng_of del: generate_short_id.simps(2))

lemma select_row_a [simp]: "select_by_short_id [row_a] sid = (if sid = ''aaaaaa'' then Some row_a else None)"
  by (simp add: select_by_short_id_def row_a_def)

text \<open>
  The exit of the loop depends on what the generator draws: one that drew a stored code in
  every pass would keep the loop running, which is why the statement below asks for a fair
  generator.
\<close>

lemma fresh_short_id_stuck: "fresh_short_id [row_a] (rng_of []) = None"
  by (rule fresh_short_id_None) (simp add: candidate_rng_of_Nil)

lemma candidate_0_example: "candidate 0 (rng_of [0, 0, 0, 0, 0, 0, 1, 1, 1, 1, 1, 1]) = ''aaaaaa''"
  by (simp add: candidate_def skip_0 generate_rng_of characters_defs
      del: generate_short_id.simps(2))

lemma candidate_1_example: "candidate 1 (rng_of [0, 0, 0, 0, 0, 0, 1, 1, 1, 1, 1, 1]) = ''bbbbbb''"
  by (simp add: candidate_def skip_rng_of generate_rng_of characters_defs
      del: generate_short_id.simps(2))

lemma fresh_short_id_retry_example:
  "fresh_short_id [row_a] (rng_of [0, 0, 0, 0, 0, 0, 1, 1, 1, 1, 1, 1]) = Some (''bbbbbb'', rng_of [])"
  using fresh_short_id_first [of "[row_a]" 1 "rng_of [0, 0, 0, 0, 0, 0, 1, 1, 1, 1, 1, 1]"]
  by (simp add: candidate_0_example candidate_1_example skip_rng_of del: One_nat_def)

lemma shorten_url_retry_example:
  "shorten_url db_a ''https://example.com/b'' ''2024-01-01 10:00:05''
       (rng_of [0, 0, 0, 0, 0, 0, 1, 1, 1, 1, 1, 1]) =
     Some ((Inr \<lparr>reply_short_id = ''bbbbbb'', short_url = ''http://localhost:8001/bbbbbb'',
                 reply_full_url = ''https://example.com/b'', message = None\<rparr>, db_ab),
           rng_of [])"
  by (simp add: shorten_url_def db_a_def db_ab_def row_b_def select_by_full_url_def
      fresh_short_id_retry_example shorten_url_commit_def insert_url_def max_rowid_def
      del: One_nat_def)
    (simp add: row_a_def)
















section \<open>Shortening a URL twice\<close>

lemma select_by_short_id_None: "select_by_short_id rows sid = None \<longleftrightarrow> sid \<notin> short_id ` set rows"
  by (auto simp: select_by_short_id_def find_None_iff)

lemma select_by_short_id_SomeD:
  "select_by_short_id rows sid = Some row \<Longrightarrow> row \<in> set rows \<and> short_id row = sid"
  by (auto simp: select_by_short_id_def find_Some_iff)

lemma insert_url_Inr:
  "insert_url d sid url now = Inr d' \<longleftrightarrow>
     select_by_short_id (urls d) sid = None \<and>
     d' = \<lparr>urls = urls d @ [\<lparr>row_id = Suc (max (seq d) (max_rowid (urls d))), short_id = sid,
                              full_url = url, created_at = now, clicks = 0\<rparr>],
           seq = Suc (max (seq d) (max_rowid (urls d)))\<rparr>"
  by (auto simp: insert_url_def Let_def)

lemma insert_url_Inl:
  "insert_url d sid url now = Inl e \<longleftrightarrow> select_by_short_id (urls d) sid \<noteq> None \<and> e = IntegrityError"
  by (auto simp: insert_url_def Let_def)

text \<open>What \<open>shorten_url\<close> returns, path by path.\<close>

lemma shorten_url_existing:
  "select_by_full_url (urls d) u = Some existing \<Longrightarrow>
   shorten_url d u now r =
     Some ((Inr \<lparr>reply_short_id = short_id existing,
                 short_url = ''http://localhost:8001/'' @ short_id existing,
                 reply_full_url = u, message = Some ''URL already exists''\<rparr>, d), r)"
  by (simp add: shorten_url_def)

lemma shorten_url_cases:
  assumes "shorten_url d u now r = Some ((res, d'), r')"
  obtains (existing) row where "select_by_full_url (urls d) u = Some row"
      "res = Inr \<lparr>reply_short_id = short_id row,
                 short_url = ''http://localhost:8001/'' @ short_id row,
                 reply_full_url = u, message = Some ''URL already exists''\<rparr>"
      "d' = d" "r' = r"
  | (fresh) sid where "select_by_full_url (urls d) u = None"
      "fresh_short_id (urls d) r = Some (sid, r')"
      "select_by_short_id (urls d) sid = None"
      "res = Inr \<lparr>reply_short_id = sid, short_url = ''http://localhost:8001/'' @ sid,
                 reply_full_url = u, message = None\<rparr>"
      "insert_url d sid u now = Inr d'"
proof (cases "select_by_full_url (urls d) u")
  case (Some row)
  with assms have "res = Inr \<lparr>reply_short_id = short_id row,
                 short_url = ''http://localhost:8001/'' @ short_id row,
                 reply_full_url = u, message = Some ''URL already exists''\<rparr>" "d' = d" "r' = r"
    by (simp_all add: shorten_url_def)
  with Some show ?thesis by (rule existing)
next
  case None
  with assms obtain sid where f: "fresh_short_id (urls d) r = Some (sid, r')"
    and c: "shorten_url_commit d sid u now = (res, d')"
    by (auto simp: shorten_url_def split: option.splits)
  from fresh_short_id_SomeD [OF f] have free: "select_by_short_id (urls d) sid = None"
    by auto
  then obtain d2 where i: "insert_url d sid u now = Inr d2"
    by (simp add: insert_url_def Let_def)
  with c have "res = Inr \<lparr>reply_short_id = sid, short_url = ''http://localhost:8001/'' @ sid,
                 reply_full_url = u, message = None\<rparr>" "d2 = d'"
    by (auto simp: shorten_url_commit_def)
  with None f free i fresh [of sid] show ?thesis by blast
qed

text \<open>The lookup by URL finds a row exactly when some row has the URL.\<close>

lemma select_by_full_url_None:
  "select_by_full_url rows u = None \<longleftrightarrow> (\<forall>row\<in>set rows. full_url row \<noteq> u)"
  by (auto simp: select_by_full_url_def find_None_iff)

lemma select_by_full_url_SomeD:
  "select_by_full_url rows u = Some row \<Longrightarrow> row \<in> set rows \<and> full_url row = u"
  by (auto simp: select_by_full_url_def find_Some_iff)

lemma select_by_full_url_append:
  "select_by_full_url rows u = None \<Longrightarrow> full_url row = u \<Longrightarrow>
   select_by_full_url (rows @ [row]) u = Some row"
  unfolding select_by_full_url_def by (induction rows) (simp_all split: if_splits)

text \<open>
  Claim C1. When \<open>shorten_url\<close> returns for a URL \<open>u\<close>, it returns a reply and not an
  exception, and a second call for \<open>u\<close> on the store it left (whatever the time and the
  generator then are) returns the same code and leaves that store as it is. When some row
  of the table has \<open>full_url = u\<close>, the call returns at once the \<open>short_id\<close> of a row with that
  \<open>full_url\<close>: the store and the generator are untouched.
\<close>

theorem shorten_url_idempotent:
  "(shorten_url d u now r = Some ((res, d'), r') \<longrightarrow>
      (\<exists>rep rep2. res = Inr rep \<and>
         shorten_url d' u now2 r2 = Some ((Inr rep2, d'), r2) \<and>
         reply_short_id rep2 = reply_short_id rep)) \<and>
   (row \<in> set (urls d) \<and> full_url row = u \<longrightarrow>
      (\<exists>existing\<in>set (urls d). full_url existing = u \<and>
         shorten_url d u now r =
           Some ((Inr \<lparr>reply_short_id = short_id existing,
                       short_url = ''http://localhost:8001/'' @ short_id existing,
                       reply_full_url = u, message = Some ''URL already exists''\<rparr>, d), r)))"
proof (intro conjI impI)
  assume "shorten_url d u now r = Some ((res, d'), r')"
  then show "\<exists>rep rep2. res = Inr rep \<and>
         shorten_url d' u now2 r2 = Some ((Inr rep2, d'), r2) \<and>
         reply_short_id rep2 = reply_short_id rep"
  proof (cases rule: shorten_url_cases)
    case (existing row)
    then show ?thesis
      using shorten_url_existing [of d u row now2 r2] by simp
  next
    case (fresh sid)
    define new where "new = \<lparr>row_id = Suc (max (seq d) (max_rowid (urls d))), short_id = sid,
                              full_url = u, created_at = now, clicks = 0\<rparr>"
    from fresh(5) have "urls d' = urls d @ [new]"
      by (simp add: insert_url_Inr new_def)
    with fresh(1) have "select_by_full_url (urls d') u = Some new"
      by (simp add: select_by_full_url_append new_def)
    from shorten_url_existing [OF this, of now2 r2] fresh(4) show ?thesis
      by (simp add: new_def)
  qed
next
  assume "row \<in> set (urls d) \<and> full_url row = u"
  then obtain existing where found: "select_by_full_url (urls d) u = Some existing"
    using select_by_full_url_None [of "urls d" u] by auto
  from select_by_full_url_SomeD [OF found] shorten_url_existing [OF found, of now r]
  show "\<exists>existing\<in>set (urls d). full_url existing = u \<and>
         shorten_url d u now r =
           Some ((Inr \<lparr>reply_short_id = short_id existing,
                       short_url = ''http://localhost:8001/'' @ short_id existing,
                       reply_full_url = u, message = Some ''URL already exists''\<rparr>, d), r)"
    by blast
qed

theorem shorten_url_idempotent_witness:
  "shorten_url db_a ''https://example.com/b'' ''2024-01-01 10:00:05''
       (rng_of [0, 0, 0, 0, 0, 0, 1, 1, 1, 1, 1, 1]) =
     Some ((Inr \<lparr>reply_short_id = ''bbbbbb'', short_url = ''http://localhost:8001/bbbbbb'',
                 reply_full_url = ''https://example.com/b'', message = None\<rparr>, db_ab),
           rng_of []) \<and>
   row_b \<in> set (urls db_ab) \<and> full_url row_b = ''https://example.com/b'' \<and>
   shorten_url db_ab ''https://example.com/b'' ''2024-01-01 10:00:09'' (rng_of [3, 4]) =
     Some ((Inr \<lparr>reply_short_id = ''bbbbbb'', short_url = ''http://localhost:8001/bbbbbb'',
                 reply_full_url = ''https://example.com/b'',
                 message = Some ''URL already exists''\<rparr>, db_ab),
           rng_of [3, 4])"
proof -
  have 1: "row_b \<in> set (urls db_ab)" and 2: "full_url row_b = ''https://example.com/b''"
    by (simp_all add: db_ab_def row_b_def)
  have 3: "short_id existing = ''bbbbbb''"
    if "existing \<in> set (urls db_ab)" and "full_url existing = ''https://example.com/b''"
    for existing
    using that by (auto simp: db_ab_def row_a_def row_b_def)
  from 1 2
    shorten_url_idempotent [of db_ab "''https://example.com/b''" "''2024-01-01 10:00:09''"
      "rng_of [3, 4]" _ _ _ _ _ row_b]
  obtain existing where "existing \<in> set (urls db_ab)"
    and "full_url existing = ''https://example.com/b''"
    and "shorten_url db_ab ''https://example.com/b'' ''2024-01-01 10:00:09'' (rng_of [3, 4]) =
      Some ((Inr \<lparr>reply_short_id = short_id existing,
                  short_url = ''http://localhost:8001/'' @ short_id existing,
                  reply_full_url = ''https://example.com/b'',
                  message = Some ''URL already exists''\<rparr>, db_ab), rng_of [3, 4])"
    by blast
  with 3 [of existing] have 4:
    "shorten_url db_ab ''https://example.com/b'' ''2024-01-01 10:00:09'' (rng_of [3, 4]) =
      Some ((Inr \<lparr>reply_short_id = ''bbbbbb'', short_url = ''http://localhost:8001/bbbbbb'',
                  reply_full_url = ''https://example.com/b'',
                  message = Some ''URL already exists''\<rparr>, db_ab), rng_of [3, 4])"
    by simp
  from shorten_url_retry_example 1 2 4
    shorten_url_idempotent [of db_a "''https://example.com/b''" "''2024-01-01 10:00:05''"
      "rng_of [0, 0, 0, 0, 0, 0, 1, 1, 1, 1, 1, 1]"
      "Inr \<lparr>reply_short_id = ''bbbbbb'', short_url = ''http://localhost:8001/bbbbbb'',
                 reply_full_url = ''https://example.com/b'', message = None\<rparr>"
      db_ab "rng_of []" "''2024-01-01 10:00:09''" "rng_of [3, 4]"]
  show ?thesis by simp
qed

section \<open>Codes are unique\<close>

lemma map_short_id_update_clicks: "map short_id (update_clicks rows sid) = map short_id rows"
  by (simp add: update_clicks_def)

lemma distinct_delete_rows:
  "distinct (map short_id rows) \<Longrightarrow> distinct (map short_id (delete_rows rows sid))"
  by (simp add: delete_rows_def distinct_map_filter)

lemma insert_url_distinct:
  "insert_url d sid u now = Inr d' \<Longrightarrow> distinct (map short_id (urls d)) \<Longrightarrow>
   distinct (map short_id (urls d'))"
  by (auto simp: insert_url_Inr select_by_short_id_None)

lemma shorten_url_distinct:
  assumes "shorten_url d u now r = Some ((res, d'), r')" and "distinct (map short_id (urls d))"
  shows "distinct (map short_id (urls d'))"
  using assms(1)
proof (cases rule: shorten_url_cases)
  case (existing row)
  with assms(2) show ?thesis by simp
next
  case (fresh sid)
  from insert_url_distinct [OF fresh(5) assms(2)] show ?thesis .
qed

lemma handle_distinct:
  assumes "handle (d, r) q = Some (d', r')" and "distinct (map short_id (urls d))"
  shows "distinct (map short_id (urls d'))"
proof (cases q)
  case (Shorten u now)
  with assms(1) obtain res where "shorten_url d u now r = Some ((res, d'), r')"
    by (auto split: option.splits)
  from shorten_url_distinct [OF this assms(2)] show ?thesis .
next
  case GetAll
  with assms show ?thesis by (auto simp: get_all_urls_def)
next
  case (Stats sid)
  with assms show ?thesis by (auto simp: get_stats_def split: option.splits)
next
  case (Delete sid)
  with assms show ?thesis
    by (auto simp: delete_url_def distinct_delete_rows split: option.splits)
next
  case (Redirect sid)
  with assms show ?thesis
    by (auto simp: redirect_to_url_def map_short_id_update_clicks split: option.splits)
qed

lemma run_distinct:
  "run (d, r) qs = Some (d', r') \<Longrightarrow> distinct (map short_id (urls d)) \<Longrightarrow>
   distinct (map short_id (urls d'))"
proof (induction qs arbitrary: d r)
  case Nil
  then show ?case by simp
next
  case (Cons q qs)
  from Cons.prems(1) obtain d1 r1 where h: "handle (d, r) q = Some (d1, r1)"
    and rest: "run (d1, r1) qs = Some (d', r')"
    by (auto split: option.splits)
  from handle_distinct [OF h Cons.prems(2)] have "distinct (map short_id (urls d1))" .
  from Cons.IH [OF rest this] show ?case .
qed

text \<open>
  Claim C2. In every store reached from the empty one by a sequence of requests, no two rows
  have the same \<open>short_id\<close>.
\<close>

theorem codes_unique:
  "run (init_db, r0) qs = Some (d, r) \<Longrightarrow> distinct (map short_id (urls d))"
  by (erule run_distinct) (simp add: init_db_def)

lemma fresh_short_id_init_example:
  "fresh_short_id [] (rng_of [0, 0, 0, 0, 0, 0, 0, 0, 0, 0, 0, 0, 1, 1, 1, 1, 1, 1]) =
     Some (''aaaaaa'', rng_of [0, 0, 0, 0, 0, 0, 1, 1, 1, 1, 1, 1])"
  by (subst fresh_short_id.simps)
    (simp add: generate_rng_of characters_defs select_by_short_id_def
      del: generate_short_id.simps(2) One_nat_def)

lemma shorten_url_init_example:
  "shorten_url init_db ''https://example.com/a'' ''2024-01-01 10:00:00''
       (rng_of [0, 0, 0, 0, 0, 0, 0, 0, 0, 0, 0, 0, 1, 1, 1, 1, 1, 1]) =
     Some ((Inr \<lparr>reply_short_id = ''aaaaaa'', short_url = ''http://localhost:8001/aaaaaa'',
                 reply_full_url = ''https://example.com/a'', message = None\<rparr>, db_a),
           rng_of [0, 0, 0, 0, 0, 0, 1, 1, 1, 1, 1, 1])"
  by (simp add: shorten_url_def init_db_def select_by_full_url_def fresh_short_id_init_example
      shorten_url_commit_def insert_url_def select_by_short_id_def max_rowid_def db_a_def
      row_a_def del: One_nat_def)

lemma run_example:
  "run (init_db, rng_of [0, 0, 0, 0, 0, 0, 0, 0, 0, 0, 0, 0, 1, 1, 1, 1, 1, 1])
       [Shorten ''https://example.com/a'' ''2024-01-01 10:00:00'',
        Shorten ''https://example.com/b'' ''2024-01-01 10:00:05''] =
     Some (db_ab, rng_of [])"
  by (simp add: shorten_url_init_example shorten_url_retry_example del: One_nat_def)

theorem codes_unique_witness:
  "run (init_db, rng_of [0, 0, 0, 0, 0, 0, 0, 0, 0, 0, 0, 0, 1, 1, 1, 1, 1, 1])
       [Shorten ''https://example.com/a'' ''2024-01-01 10:00:00'',
        Shorten ''https://example.com/b'' ''2024-01-01 10:00:05''] =
     Some (db_ab, rng_of []) \<and>
   distinct (map short_id (urls db_ab))"
  using run_example codes_unique [OF run_example] by simp

section \<open>Redirect and delete\<close>

lemma select_by_short_id_nth:
  assumes "distinct (map short_id rows)" and "i < length rows"
  shows "select_by_short_id rows (short_id (rows ! i)) = Some (rows ! i)"
proof -
  have "\<not> (short_id (rows ! j) = short_id (rows ! i))" if "j < i" for j
  proof -
    from that assms(2) have "j < length rows" "j \<noteq> i" by simp_all
    with assms show ?thesis
      using nth_eq_iff_index_eq [of "map short_id rows" j i] by simp
  qed
  with assms(2) show ?thesis
    unfolding select_by_short_id_def find_Some_iff by blast
qed

lemma update_clicks_nth:
  assumes "distinct (map short_id rows)" and "i < length rows"
  shows "update_clicks rows (short_id (rows ! i)) =
           rows[i := (rows ! i)\<lparr>clicks := clicks (rows ! i) + 1\<rparr>]"
proof (rule nth_equalityI)
  show "length (update_clicks rows (short_id (rows ! i))) =
        length (rows[i := (rows ! i)\<lparr>clicks := clicks (rows ! i) + 1\<rparr>])"
    by (simp add: update_clicks_def)
next
  fix j
  assume "j < length (update_clicks rows (short_id (rows ! i)))"
  then have j: "j < length rows" by (simp add: update_clicks_def)
  have "short_id (rows ! j) = short_id (rows ! i) \<longleftrightarrow> j = i"
    using nth_eq_iff_index_eq [of "map short_id rows" j i] assms j by simp
  with j assms(2) show "update_clicks rows (short_id (rows ! i)) ! j =
        rows[i := (rows ! i)\<lparr>clicks := clicks (rows ! i) + 1\<rparr>] ! j"
    by (simp add: update_clicks_def nth_list_update)
qed

lemma delete_rows_nth:
  assumes "distinct (map short_id rows)" and "i < length rows"
  shows "delete_rows rows (short_id (rows ! i)) = take i rows @ drop (Suc i) rows"
proof -
  have split: "rows = take i rows @ rows ! i # drop (Suc i) rows"
    using assms(2) by (rule id_take_nth_drop)
  have "distinct (map short_id (take i rows @ rows ! i # drop (Suc i) rows))"
    using assms(1) split by simp
  then have "short_id (rows ! i) \<notin> short_id ` set (take i rows)"
    "short_id (rows ! i) \<notin> short_id ` set (drop (Suc i) rows)"
    by simp_all
  then have out: "\<forall>row\<in>set (take i rows) \<union> set (drop (Suc i) rows). short_id row \<noteq> short_id (rows ! i)"
    by (metis Un_iff image_eqI)
  have "delete_rows (take i rows @ rows ! i # drop (Suc i) rows) (short_id (rows ! i)) =
        take i rows @ drop (Suc i) rows"
    using out by (simp add: delete_rows_def filter_id_conv)
  with split show ?thesis by simp
qed

text \<open>
  Claim C4. \<open>redirect_to_url\<close> raises the 404 exactly when no row has the code, and then the
  store is unchanged. When the row at position \<open>i\<close> has the code (codes being unique), the
  reply is that row's \<open>full_url\<close>, and the store afterwards differs in that row's \<open>clicks\<close>
  only, which is one more than before.
\<close>

theorem redirect_to_url_spec:
  "(fst (redirect_to_url d sid) = Inl NotFound \<longleftrightarrow> sid \<notin> short_id ` set (urls d)) \<and>
   (sid \<notin> short_id ` set (urls d) \<longrightarrow> redirect_to_url d sid = (Inl NotFound, d)) \<and>
   (distinct (map short_id (urls d)) \<and> i < length (urls d) \<and> short_id (urls d ! i) = sid \<longrightarrow>
      redirect_to_url d sid =
        (Inr (full_url (urls d ! i)),
         d\<lparr>urls := (urls d)[i := (urls d ! i)\<lparr>clicks := clicks (urls d ! i) + 1\<rparr>]\<rparr>))"
proof (intro conjI impI)
  show "fst (redirect_to_url d sid) = Inl NotFound \<longleftrightarrow> sid \<notin> short_id ` set (urls d)"
    by (auto simp: redirect_to_url_def select_by_short_id_None [symmetric] split: option.splits)
  show "redirect_to_url d sid = (Inl NotFound, d)" if "sid \<notin> short_id ` set (urls d)"
    using that by (simp add: redirect_to_url_def select_by_short_id_None [symmetric])
  show "redirect_to_url d sid =
        (Inr (full_url (urls d ! i)),
         d\<lparr>urls := (urls d)[i := (urls d ! i)\<lparr>clicks := clicks (urls d ! i) + 1\<rparr>]\<rparr>)"
    if "distinct (map short_id (urls d)) \<and> i < length (urls d) \<and> short_id (urls d ! i) = sid"
    using that select_by_short_id_nth [of "urls d" i] update_clicks_nth [of "urls d" i]
    by (auto simp: redirect_to_url_def)
qed

text \<open>
  Claim C5. \<open>delete_url\<close> raises the 404 exactly when no row has the code, and then the store
  is unchanged. When the row at position \<open>i\<close> has the code (codes being unique), the store
  afterwards is the store without that row. In either case a redirect for the code after the
  delete raises the 404.
\<close>

theorem delete_url_spec:
  "(fst (delete_url d sid) = Inl NotFound \<longleftrightarrow> sid \<notin> short_id ` set (urls d)) \<and>
   (sid \<notin> short_id ` set (urls d) \<longrightarrow> delete_url d sid = (Inl NotFound, d)) \<and>
   (distinct (map short_id (urls d)) \<and> i < length (urls d) \<and> short_id (urls d ! i) = sid \<longrightarrow>
      delete_url d sid =
        (Inr ''URL deleted successfully'', d\<lparr>urls := take i (urls d) @ drop (Suc i) (urls d)\<rparr>)) \<and>
   redirect_to_url (snd (delete_url d sid)) sid = (Inl NotFound, snd (delete_url d sid))"
proof (intro conjI impI)
  show "fst (delete_url d sid) = Inl NotFound \<longleftrightarrow> sid \<notin> short_id ` set (urls d)"
    by (auto simp: delete_url_def select_by_short_id_None [symmetric] split: option.splits)
  show "delete_url d sid = (Inl NotFound, d)" if "sid \<notin> short_id ` set (urls d)"
    using that by (simp add: delete_url_def select_by_short_id_None [symmetric])
  show "delete_url d sid =
        (Inr ''URL deleted successfully'', d\<lparr>urls := take i (urls d) @ drop (Suc i) (urls d)\<rparr>)"
    if "distinct (map short_id (urls d)) \<and> i < length (urls d) \<and> short_id (urls d ! i) = sid"
    using that select_by_short_id_nth [of "urls d" i] delete_rows_nth [of "urls d" i]
    by (auto simp: delete_url_def)
  have "sid \<notin> short_id ` set (urls (snd (delete_url d sid)))"
    by (auto simp: delete_url_def delete_rows_def select_by_short_id_None split: option.splits)
  then show "redirect_to_url (snd (delete_url d sid)) sid = (Inl NotFound, snd (delete_url d sid))"
    by (simp add: redirect_to_url_def select_by_short_id_None [symmetric])
qed

theorem redirect_to_url_spec_witness:
  "''zzzzzz'' \<notin> short_id ` set (urls db_ab) \<and>
   redirect_to_url db_ab ''zzzzzz'' = (Inl NotFound, db_ab) \<and>
   distinct (map short_id (urls db_ab)) \<and> 0 < length (urls db_ab) \<and>
   short_id (urls db_ab ! 0) = ''aaaaaa'' \<and>
   redirect_to_url db_ab ''aaaaaa'' =
     (Inr ''https://example.com/a'', \<lparr>urls = [row_a\<lparr>clicks := 1\<rparr>, row_b], seq = 2\<rparr>)"
  using redirect_to_url_spec [of db_ab "''zzzzzz''" 0]
    redirect_to_url_spec [of db_ab "''aaaaaa''" 0]
  by (simp add: db_ab_def row_a_def row_b_def)

theorem delete_url_spec_witness:
  "''zzzzzz'' \<notin> short_id ` set (urls db_ab) \<and>
   delete_url db_ab ''zzzzzz'' = (Inl NotFound, db_ab) \<and>
   distinct (map short_id (urls db_ab)) \<and> 0 < length (urls db_ab) \<and>
   short_id (urls db_ab ! 0) = ''aaaaaa'' \<and>
   delete_url db_ab ''aaaaaa'' = (Inr ''URL deleted successfully'', \<lparr>urls = [row_b], seq = 2\<rparr>) \<and>
   redirect_to_url \<lparr>urls = [row_b], seq = 2\<rparr> ''aaaaaa'' =
     (Inl NotFound, \<lparr>urls = [row_b], seq = 2\<rparr>)"
  using delete_url_spec [of db_ab "''zzzzzz''" 0]
    delete_url_spec [of db_ab "''aaaaaa''" 0]
  by (auto simp: db_ab_def row_a_def row_b_def)

section \<open>The click counter\<close>

lemma row_id_le_max_rowid: "row \<in> set rows \<Longrightarrow> row_id row \<le> max_rowid rows"
  unfolding max_rowid_def by (induction rows) auto

lemma handle_cases:
  assumes "handle (d, r) q = Some (d', r')"
  obtains (same) "d' = d"
  | (inserted) sid u now where
      "d' = \<lparr>urls = urls d @ [\<lparr>row_id = Suc (max (seq d) (max_rowid (urls d))), short_id = sid,
                              full_url = u, created_at = now, clicks = 0\<rparr>],
            seq = Suc (max (seq d) (max_rowid (urls d)))\<rparr>"
  | (deleted) sid where "d' = d\<lparr>urls := delete_rows (urls d) sid\<rparr>"
  | (clicked) sid where "d' = d\<lparr>urls := update_clicks (urls d) sid\<rparr>"
proof (cases q)
  case (Shorten u now)
  with assms obtain res where s: "shorten_url d u now r = Some ((res, d'), r')"
    by (auto split: option.splits)
  then show ?thesis
  proof (cases rule: shorten_url_cases)
    case (existing row)
    then show ?thesis using same by simp
  next
    case (fresh sid)
    then show ?thesis using inserted [of sid u now] by (simp add: insert_url_Inr)
  qed
next
  case GetAll
  with assms same show ?thesis by (simp add: get_all_urls_def)
next
  case (Stats sid)
  with assms same show ?thesis by (auto simp: get_stats_def split: option.splits)
next
  case (Delete sid)
  with assms same deleted [of sid] show ?thesis
    by (auto simp: delete_url_def split: option.splits)
next
  case (Redirect sid)
  with assms same clicked [of sid] show ?thesis
    by (auto simp: redirect_to_url_def split: option.splits)
qed

lemma handle_clicks:
  assumes "handle (d, r) q = Some (d', r')"
  shows "seq d \<le> seq d' \<and>
         (\<forall>row'\<in>set (urls d').
            (\<exists>row\<in>set (urls d). row_id row = row_id row' \<and> clicks row \<le> clicks row') \<or>
            seq d < row_id row')"
  using assms
proof (cases rule: handle_cases)
  case same
  then show ?thesis by auto
next
  case (inserted sid u now)
  then show ?thesis by auto
next
  case (deleted sid)
  then show ?thesis by (auto simp: delete_rows_def)
next
  case (clicked sid)
  have "\<exists>row\<in>set (urls d). row_id row = row_id row' \<and> clicks row \<le> clicks row'"
    if "row' \<in> set (update_clicks (urls d) sid)" for row'
  proof -
    from that obtain row where "row \<in> set (urls d)"
      and "row' = (if short_id row = sid then row\<lparr>clicks := clicks row + 1\<rparr> else row)"
      by (auto simp: update_clicks_def)
    then show ?thesis by (intro bexI [of _ row]) auto
  qed
  with clicked show ?thesis by simp
qed

lemma handle_ids:
  assumes "handle (d, r) q = Some (d', r')"
    and "\<forall>row\<in>set (urls d). row_id row \<le> seq d \<and> 0 \<le> clicks row"
    and "distinct (map row_id (urls d))"
  shows "(\<forall>row\<in>set (urls d'). row_id row \<le> seq d' \<and> 0 \<le> clicks row) \<and>
         distinct (map row_id (urls d'))"
  using assms(1)
proof (cases rule: handle_cases)
  case same
  with assms show ?thesis by simp
next
  case (inserted sid u now)
  have "Suc (max (seq d) (max_rowid (urls d))) \<notin> row_id ` set (urls d)"
    using assms(2) by (auto simp: max_def split: if_splits)
  with inserted assms(2,3) show ?thesis
    by (auto simp: le_max_iff_disj le_Suc_eq)
next
  case (deleted sid)
  with assms(2,3) show ?thesis by (simp add: delete_rows_def distinct_map_filter)
next
  case (clicked sid)
  have "map row_id (update_clicks (urls d) sid) = map row_id (urls d)"
    by (simp add: update_clicks_def)
  moreover have "\<forall>row\<in>set (update_clicks (urls d) sid). row_id row \<le> seq d \<and> 0 \<le> clicks row"
    using assms(2) by (auto simp: update_clicks_def)
  ultimately show ?thesis using clicked assms(3) by simp
qed

lemma run_ids:
  "run (d, r) qs = Some (d', r') \<Longrightarrow>
   \<forall>row\<in>set (urls d). row_id row \<le> seq d \<and> 0 \<le> clicks row \<Longrightarrow>
   distinct (map row_id (urls d)) \<Longrightarrow>
   (\<forall>row\<in>set (urls d'). row_id row \<le> seq d' \<and> 0 \<le> clicks row) \<and>
   distinct (map row_id (urls d'))"
proof (induction qs arbitrary: d r)
  case Nil
  then show ?case by simp
next
  case (Cons q qs)
  from Cons.prems(1) obtain d1 r1 where h: "handle (d, r) q = Some (d1, r1)"
    and rest: "run (d1, r1) qs = Some (d', r')"
    by (auto split: option.splits)
  from handle_ids [OF h Cons.prems(2,3)] Cons.IH [OF rest] show ?case by blast
qed

lemma run_clicks:
  "run (d, r) qs = Some (d', r') \<Longrightarrow>
   seq d \<le> seq d' \<and>
   (\<forall>row'\<in>set (urls d').
      (\<exists>row\<in>set (urls d). row_id row = row_id row' \<and> clicks row \<le> clicks row') \<or>
      seq d < row_id row')"
proof (induction qs arbitrary: d r)
  case Nil
  then show ?case by auto
next
  case (Cons q qs)
  from Cons.prems(1) obtain d1 r1 where h: "handle (d, r) q = Some (d1, r1)"
    and rest: "run (d1, r1) qs = Some (d', r')"
    by (auto split: option.splits)
  note first = handle_clicks [OF h] and later = Cons.IH [OF rest]
  have "(\<exists>row\<in>set (urls d). row_id row = row_id row' \<and> clicks row \<le> clicks row') \<or>
        seq d < row_id row'" if "row' \<in> set (urls d')" for row'
  proof -
    from later that consider
      row1 where "row1 \<in> set (urls d1)" "row_id row1 = row_id row'" "clicks row1 \<le> clicks row'"
      | "seq d1 < row_id row'"
      by blast
    then show ?thesis
    proof cases
      case 1
      from first 1(1) consider
        row where "row \<in> set (urls d)" "row_id row = row_id row1" "clicks row \<le> clicks row1"
        | "seq d < row_id row1"
        by blast
      then show ?thesis
      proof cases
        case 1
        with \<open>row_id row1 = row_id row'\<close> \<open>clicks row1 \<le> clicks row'\<close> show ?thesis
          by (intro disjI1 bexI [of _ row]) auto
      next
        case 2
        with \<open>row_id row1 = row_id row'\<close> show ?thesis by simp
      qed
    next
      case 2
      with first show ?thesis by simp
    qed
  qed
  with first later show ?case by auto
qed

lemma run_clicks_mono:
  assumes "run (init_db, r0) qs = Some (d, r)" and "run (d, r) qs' = Some (d', r')"
    and "row \<in> set (urls d)" and "row' \<in> set (urls d')" and "row_id row' = row_id row"
  shows "clicks row \<le> clicks row' \<and> 0 \<le> clicks row"
proof -
  from run_ids [OF assms(1)]
  have ids: "\<forall>row\<in>set (urls d). row_id row \<le> seq d \<and> 0 \<le> clicks row"
    and dist: "distinct (map row_id (urls d))"
    by (simp_all add: init_db_def)
  from run_clicks [OF assms(2)] assms(4) consider
    row0 where "row0 \<in> set (urls d)" "row_id row0 = row_id row'" "clicks row0 \<le> clicks row'"
    | "seq d < row_id row'"
    by blast
  then show ?thesis
  proof cases
    case 1
    from dist have "inj_on row_id (set (urls d))" by (simp add: distinct_map)
    with 1(1,2) assms(3,5) have "row0 = row" by (auto dest: inj_onD)
    with 1(3) ids assms(3) show ?thesis by simp
  next
    case 2
    with ids assms(3,5) show ?thesis by auto
  qed
qed

lemma run_redirect_delete_example:
  "run (db_ab, rng_of []) [Redirect ''aaaaaa'', Delete ''bbbbbb''] =
     Some (\<lparr>urls = [row_a\<lparr>clicks := 1\<rparr>], seq = 2\<rparr>, rng_of [])"
  by (simp add: redirect_to_url_def delete_url_def select_by_short_id_def update_clicks_def
      delete_rows_def db_ab_def row_a_def row_b_def)

text \<open>
  Claim C8. A row is created with \<open>clicks = 0\<close>. \<open>shorten_url\<close> leaves every row that was there
  as it was, \<open>get_stats\<close> and \<open>get_all_urls\<close> leave the store as it was, and the rows that
  \<open>delete_url\<close> leaves are rows that were there, unchanged. Between a store reached from the
  empty one and any store reached from it later, the \<open>clicks\<close> of a row (the row with the same
  \<open>id\<close>) has not decreased, and it is never negative.
\<close>

theorem clicks_monotone:
  "(shorten_url d u now r = Some ((Inr rep, d'), r') \<and> message rep = None \<longrightarrow>
      (\<exists>row. urls d' = urls d @ [row] \<and> short_id row = reply_short_id rep \<and> clicks row = 0)) \<and>
   (shorten_url d u now r = Some ((res, d'), r') \<longrightarrow> take (length (urls d)) (urls d') = urls d) \<and>
   snd (get_stats d sid) = d \<and> snd (get_all_urls d) = d \<and>
   set (urls (snd (delete_url d sid))) \<subseteq> set (urls d) \<and>
   (run (init_db, r0) qs = Some (d1, r1) \<and> run (d1, r1) qs' = Some (d2, r2) \<and>
    row \<in> set (urls d1) \<and> row' \<in> set (urls d2) \<and> row_id row' = row_id row \<longrightarrow>
      0 \<le> clicks row \<and> clicks row \<le> clicks row')"
proof (intro conjI impI)
  assume "shorten_url d u now r = Some ((Inr rep, d'), r') \<and> message rep = None"
  then have "shorten_url d u now r = Some ((Inr rep, d'), r')" and m: "message rep = None"
    by simp_all
  then show "\<exists>row. urls d' = urls d @ [row] \<and> short_id row = reply_short_id rep \<and> clicks row = 0"
  proof (cases rule: shorten_url_cases)
    case (existing row)
    with m show ?thesis by simp
  next
    case (fresh sid)
    then show ?thesis by (auto simp: insert_url_Inr)
  qed
next
  assume "shorten_url d u now r = Some ((res, d'), r')"
  then show "take (length (urls d)) (urls d') = urls d"
  proof (cases rule: shorten_url_cases)
    case (existing row)
    then show ?thesis by simp
  next
    case (fresh sid)
    then show ?thesis by (auto simp: insert_url_Inr)
  qed
next
  show "snd (get_stats d sid) = d"
    by (simp add: get_stats_def split: option.splits)
  show "snd (get_all_urls d) = d"
    by (simp add: get_all_urls_def)
  show "set (urls (snd (delete_url d sid))) \<subseteq> set (urls d)"
    by (auto simp: delete_url_def delete_rows_def split: option.splits)
next
  assume a: "run (init_db, r0) qs = Some (d1, r1) \<and> run (d1, r1) qs' = Some (d2, r2) \<and>
    row \<in> set (urls d1) \<and> row' \<in> set (urls d2) \<and> row_id row' = row_id row"
  then have "clicks row \<le> clicks row' \<and> 0 \<le> clicks row"
    by (intro run_clicks_mono [of r0 qs d1 r1 qs' d2 r2]) simp_all
  then show "0 \<le> clicks row" and "clicks row \<le> clicks row'" by simp_all
qed

theorem clicks_monotone_witness:
  "shorten_url db_a ''https://example.com/b'' ''2024-01-01 10:00:05''
       (rng_of [0, 0, 0, 0, 0, 0, 1, 1, 1, 1, 1, 1]) =
     Some ((Inr \<lparr>reply_short_id = ''bbbbbb'', short_url = ''http://localhost:8001/bbbbbb'',
                 reply_full_url = ''https://example.com/b'', message = None\<rparr>, db_ab),
           rng_of []) \<and>
   urls db_ab = urls db_a @ [row_b] \<and> clicks row_b = 0 \<and>
   run (init_db, rng_of [0, 0, 0, 0, 0, 0, 0, 0, 0, 0, 0, 0, 1, 1, 1, 1, 1, 1])
       [Shorten ''https://example.com/a'' ''2024-01-01 10:00:00'',
        Shorten ''https://example.com/b'' ''2024-01-01 10:00:05''] =
     Some (db_ab, rng_of []) \<and>
   run (db_ab, rng_of []) [Redirect ''aaaaaa'', Delete ''bbbbbb''] =
     Some (\<lparr>urls = [row_a\<lparr>clicks := 1\<rparr>], seq = 2\<rparr>, rng_of []) \<and>
   row_a \<in> set (urls db_ab) \<and>
   row_id (row_a\<lparr>clicks := 1\<rparr>) = row_id row_a \<and>
   clicks row_a \<le> clicks (row_a\<lparr>clicks := 1\<rparr>)"
  using shorten_url_retry_example run_example run_redirect_delete_example
    clicks_monotone [of db_a "''https://example.com/b''" "''2024-01-01 10:00:05''"
      "rng_of [0, 0, 0, 0, 0, 0, 1, 1, 1, 1, 1, 1]"
      "\<lparr>reply_short_id = ''bbbbbb'', short_url = ''http://localhost:8001/bbbbbb'',
                 reply_full_url = ''https://example.com/b'', message = None\<rparr>"
      db_ab "rng_of []"
      "Inr \<lparr>reply_short_id = ''bbbbbb'', short_url = ''http://localhost:8001/bbbbbb'',
                 reply_full_url = ''https://example.com/b'', message = None\<rparr>" "''aaaaaa''"
      "rng_of [0, 0, 0, 0, 0, 0, 0, 0, 0, 0, 0, 0, 1, 1, 1, 1, 1, 1]"
      "[Shorten ''https://example.com/a'' ''2024-01-01 10:00:00'',
        Shorten ''https://example.com/b'' ''2024-01-01 10:00:05'']"
      db_ab "rng_of []" "[Redirect ''aaaaaa'', Delete ''bbbbbb'']"
      "\<lparr>urls = [row_a\<lparr>clicks := 1\<rparr>], seq = 2\<rparr>" "rng_of []"
      row_a "row_a\<lparr>clicks := 1\<rparr>"]
  by (simp add: db_ab_def db_a_def)

section \<open>A conflicting insert\<close>

lemma fresh_short_id_b_example:
  "fresh_short_id [row_a] (rng_of [1, 1, 1, 1, 1, 1]) = Some (''bbbbbb'', rng_of [])"
  by (subst fresh_short_id.simps)
    (simp add: generate_rng_of characters_defs del: generate_short_id.simps(2) One_nat_def)

lemma racing_insert_db_a:
  "racing_insert db_a =
     \<lparr>urls = [row_a, \<lparr>row_id = 2, short_id = ''bbbbbb'', full_url = ''https://example.com/c'',
                      created_at = ''2024-01-01 10:00:04'', clicks = 0\<rparr>], seq = 2\<rparr>"
  by (simp add: racing_insert_def insert_url_def db_a_def max_rowid_def)
    (simp add: row_a_def)

text \<open>
  The store holds \<open>aaaaaa\<close>; the handler draws \<open>bbbbbb\<close>, which passes the probe; another
  connection commits \<open>bbbbbb\<close>; the handler's INSERT then fails and the handler ends with the
  \<open>IntegrityError\<close>, without another pass through the loop.
\<close>

theorem shorten_url_interleaved_counterexample:
  "select_by_full_url (urls db_a) ''https://example.com/b'' = None \<and>
   fresh_short_id (urls db_a) (rng_of [1, 1, 1, 1, 1, 1]) = Some (''bbbbbb'', rng_of []) \<and>
   shorten_url_interleaved racing_insert db_a ''https://example.com/b'' ''2024-01-01 10:00:05''
       (rng_of [1, 1, 1, 1, 1, 1]) =
     Some ((Inl IntegrityError, racing_insert db_a), rng_of [])"
proof -
  have 1: "select_by_full_url (urls db_a) ''https://example.com/b'' = None"
    by (simp add: select_by_full_url_def db_a_def row_a_def)
  have 2: "fresh_short_id (urls db_a) (rng_of [1, 1, 1, 1, 1, 1]) = Some (''bbbbbb'', rng_of [])"
    by (simp add: db_a_def fresh_short_id_b_example del: One_nat_def)
  have 3: "insert_url (racing_insert db_a) ''bbbbbb'' ''https://example.com/b''
             ''2024-01-01 10:00:05'' = Inl IntegrityError"
    by (simp add: racing_insert_db_a insert_url_def select_by_short_id_def row_a_def)
  show ?thesis
    by (simp add: 1 2 3 shorten_url_interleaved_def shorten_url_commit_def del: One_nat_def)
qed

text \<open>
  Claim C3, as the code has it. With nothing committed in between, the interleaved handler
  is \<open>shorten_url\<close>. When the candidate that passed the probe is in the store at the time of
  the INSERT, the INSERT fails with the constraint violation and changes nothing (the store
  stays as the other connection left it), and the handler does not retry: it ends with the
  \<open>IntegrityError\<close>.
\<close>

theorem shorten_url_interleaved_conflict:
  "shorten_url_interleaved (\<lambda>d. d) d u now r = shorten_url d u now r \<and>
   (select_by_full_url (urls d) u = None \<and> fresh_short_id (urls d) r = Some (sid, r') \<and>
    select_by_short_id (urls (other d)) sid \<noteq> None \<longrightarrow>
      shorten_url_interleaved other d u now r = Some ((Inl IntegrityError, other d), r')) \<and>
   (select_by_short_id (urls d) sid \<noteq> None \<longrightarrow>
      insert_url d sid u now = Inl IntegrityError \<and>
      shorten_url_commit d sid u now = (Inl IntegrityError, d))"
  by (auto simp: shorten_url_interleaved_def shorten_url_def shorten_url_commit_def
      insert_url_def)

theorem shorten_url_interleaved_conflict_witness:
  "select_by_full_url (urls db_a) ''https://example.com/b'' = None \<and>
   fresh_short_id (urls db_a) (rng_of [1, 1, 1, 1, 1, 1]) = Some (''bbbbbb'', rng_of []) \<and>
   select_by_short_id (urls (racing_insert db_a)) ''bbbbbb'' \<noteq> None \<and>
   shorten_url_interleaved racing_insert db_a ''https://example.com/b'' ''2024-01-01 10:00:05''
       (rng_of [1, 1, 1, 1, 1, 1]) =
     Some ((Inl IntegrityError, racing_insert db_a), rng_of []) \<and>
   select_by_short_id (urls db_a) ''aaaaaa'' \<noteq> None \<and>
   shorten_url_commit db_a ''aaaaaa'' ''https://example.com/b'' ''2024-01-01 10:00:05'' =
     (Inl IntegrityError, db_a)"
proof -
  have 1: "select_by_full_url (urls db_a) ''https://example.com/b'' = None"
    by (simp add: select_by_full_url_def db_a_def row_a_def)
  have 2: "fresh_short_id (urls db_a) (rng_of [1, 1, 1, 1, 1, 1]) = Some (''bbbbbb'', rng_of [])"
    by (simp add: db_a_def fresh_short_id_b_example del: One_nat_def)
  have 3: "select_by_short_id (urls (racing_insert db_a)) ''bbbbbb'' \<noteq> None"
    by (simp add: racing_insert_db_a select_by_short_id_def row_a_def)
  have 4: "select_by_short_id (urls db_a) ''aaaaaa'' \<noteq> None"
    by (simp add: db_a_def)
  from 1 2 3 4
    shorten_url_interleaved_conflict [of db_a "''https://example.com/b''"
      "''2024-01-01 10:00:05''" "rng_of [1, 1, 1, 1, 1, 1]" "''bbbbbb''" "rng_of []"
      racing_insert]
    shorten_url_interleaved_conflict [of db_a "''https://example.com/b''"
      "''2024-01-01 10:00:05''" "rng_of [1, 1, 1, 1, 1, 1]" "''aaaaaa''" "rng_of []"
      racing_insert]
  show ?thesis by simp
qed

section \<open>Listing the links\<close>

lemma mset_get_all_urls: "mset (fst (get_all_urls d)) = mset (urls d)"
  by (simp add: get_all_urls_def)

lemma sorted_get_all_urls:
  "sorted_wrt (\<lambda>x y. created_at y \<le> created_at x) (fst (get_all_urls d))"
proof -
  have "sorted (map created_at (sort_key created_at (urls d)))"
    by (rule sorted_sort_key)
  then have "sorted_wrt (\<lambda>x y. created_at x \<le> created_at y) (sort_key created_at (urls d))"
    by (simp add: sorted_map)
  then show ?thesis
    by (simp add: get_all_urls_def sorted_wrt_rev)
qed

text \<open>
  Claim C10. \<open>get_all_urls\<close> returns every row of the table, each as often as it is there,
  ordered by \<open>created_at\<close> from the latest to the earliest, and leaves the store as it was.
\<close>

theorem get_all_urls_sorted:
  "mset (fst (get_all_urls d)) = mset (urls d) \<and>
   sorted_wrt (\<lambda>x y. created_at y \<le> created_at x) (fst (get_all_urls d)) \<and>
   snd (get_all_urls d) = d"
  by (simp add: mset_get_all_urls sorted_get_all_urls) (simp add: get_all_urls_def)

theorem get_all_urls_sorted_witness:
  "get_all_urls db_ab = ([row_b, row_a], db_ab) \<and>
   mset [row_b, row_a] = mset (urls db_ab) \<and>
   created_at row_a \<le> created_at row_b"
  using get_all_urls_sorted [of db_ab]
  by (simp add: get_all_urls_def db_ab_def row_a_def row_b_def)

section \<open>Updating a task\<close>

lemma fold_assign_update_fields: "fold assign (update_fields u) t = updated u t"
  by (cases "upd_title u"; cases "upd_description u"; cases "upd_completed u")
    (simp_all add: update_fields_def updated_def)

lemma updated_Nil: "update_fields u = [] \<Longrightarrow> updated u t = t"
  using fold_assign_update_fields [of u t] by simp

lemma task_id_updated [simp]: "task_id (updated u t) = task_id t"
  by (simp add: updated_def)

lemma task_id_assign: "task_id (assign a t) = task_id t"
  by (cases a) simp_all

lemma task_id_fold_assign: "task_id (fold assign fs t) = task_id t"
  by (induction fs arbitrary: t) (simp_all add: task_id_assign)

lemma map_task_id_update_tasks: "map task_id (update_tasks tasks fs i) = map task_id tasks"
  by (simp add: update_tasks_def task_id_fold_assign)

text \<open>The SELECT for an id that can be bound, and for one that cannot.\<close>

lemma select_task_in_range:
  "- (2 ^ 63) \<le> i \<Longrightarrow> i < 2 ^ 63 \<Longrightarrow> select_task tasks i = Inr (find (\<lambda>t. task_id t = i) tasks)"
  by (simp add: select_task_def bind_integer_def)

lemma select_task_out_of_range:
  "i < - (2 ^ 63) \<or> 2 ^ 63 \<le> i \<Longrightarrow> select_task tasks i = Inl OverflowError"
  by (auto simp: select_task_def bind_integer_def)

lemma find_task_None: "find (\<lambda>t. task_id t = i) tasks = None \<longleftrightarrow> i \<notin> task_id ` set tasks"
  by (auto simp: find_None_iff)

lemma find_task_nth:
  assumes "distinct (map task_id tasks)" and "k < length tasks"
  shows "find (\<lambda>t. task_id t = task_id (tasks ! k)) tasks = Some (tasks ! k)"
proof -
  have "\<not> (task_id (tasks ! j) = task_id (tasks ! k))" if "j < k" for j
  proof -
    from that assms(2) have "j < length tasks" "j \<noteq> k" by simp_all
    with assms show ?thesis
      using nth_eq_iff_index_eq [of "map task_id tasks" j k] by simp
  qed
  with assms(2) show ?thesis
    unfolding find_Some_iff by blast
qed

lemma update_tasks_nth:
  assumes "distinct (map task_id tasks)" and "k < length tasks"
  shows "update_tasks tasks (update_fields u) (task_id (tasks ! k)) =
           tasks[k := updated u (tasks ! k)]"
proof (rule nth_equalityI)
  show "length (update_tasks tasks (update_fields u) (task_id (tasks ! k))) =
        length (tasks[k := updated u (tasks ! k)])"
    by (simp add: update_tasks_def)
next
  fix j
  assume "j < length (update_tasks tasks (update_fields u) (task_id (tasks ! k)))"
  then have j: "j < length tasks" by (simp add: update_tasks_def)
  have "task_id (tasks ! j) = task_id (tasks ! k) \<longleftrightarrow> j = k"
    using nth_eq_iff_index_eq [of "map task_id tasks" j k] assms j by simp
  with j assms(2) show "update_tasks tasks (update_fields u) (task_id (tasks ! k)) ! j =
        tasks[k := updated u (tasks ! k)] ! j"
    by (simp add: update_tasks_def nth_list_update fold_assign_update_fields)
qed

text \<open>
  For an id within the signed 64-bit range the handler answers 404 exactly when no task has
  the id, and then the table is unchanged. When the task at position \<open>k\<close> has the id (ids being
  unique, as the primary key makes them), the reply is that task with the fields present in
  the body replaced and the others kept, and the table afterwards differs in that task only.
\<close>

lemma update_task_in_range:
  assumes lo: "- (2 ^ 63) \<le> i" and hi: "i < 2 ^ 63"
  shows "(fst (update_task tasks i u) = Inl TaskNotFound \<longleftrightarrow> i \<notin> task_id ` set tasks) \<and>
   (i \<notin> task_id ` set tasks \<longrightarrow> update_task tasks i u = (Inl TaskNotFound, tasks)) \<and>
   (distinct (map task_id tasks) \<and> k < length tasks \<and> task_id (tasks ! k) = i \<longrightarrow>
      update_task tasks i u =
        (Inr (updated u (tasks ! k)), tasks[k := updated u (tasks ! k)])) \<and>
   fst (update_task tasks i u) \<noteq> Inl TypeError \<and>
   fst (update_task tasks i u) \<noteq> Inl OverflowError"
proof -
  note sel = select_task_in_range [OF lo hi]
  define ts where
    "ts = (if update_fields u \<noteq> [] then update_tasks tasks (update_fields u) i else tasks)"
  have absent: "update_task tasks i u = (Inl TaskNotFound, tasks)" if "i \<notin> task_id ` set tasks"
    using that by (simp add: update_task_def sel find_task_None [symmetric])
  have present: "\<exists>y. update_task tasks i u = (Inr y, ts)" if "i \<in> task_id ` set tasks"
  proof -
    from that obtain t where t: "find (\<lambda>t. task_id t = i) tasks = Some t"
      using find_task_None [of i tasks] by auto
    have "map task_id ts = map task_id tasks"
      by (simp add: ts_def map_task_id_update_tasks)
    then have "set (map task_id ts) = set (map task_id tasks)" by simp
    with that have "i \<in> task_id ` set ts" by simp
    then obtain y where "find (\<lambda>t. task_id t = i) ts = Some y"
      using find_task_None [of i ts] by auto
    with t have "update_task tasks i u = (Inr y, ts)"
      by (simp add: update_task_def sel Let_def ts_def)
    then show ?thesis ..
  qed
  have exact: "update_task tasks i u =
        (Inr (updated u (tasks ! k)), tasks[k := updated u (tasks ! k)])"
    if a: "distinct (map task_id tasks) \<and> k < length tasks \<and> task_id (tasks ! k) = i"
  proof -
    from a have d: "distinct (map task_id tasks)" and k: "k < length tasks"
      and i: "task_id (tasks ! k) = i" by simp_all
    define tasks' where "tasks' = tasks[k := updated u (tasks ! k)]"
    have same: "ts = tasks'"
      using update_tasks_nth [OF d k, of u] i
      by (auto simp: ts_def tasks'_def updated_Nil)
    have d': "distinct (map task_id tasks')"
      using d k by (simp add: tasks'_def map_update list_update_same_conv [THEN iffD2])
    have "find (\<lambda>t. task_id t = task_id (tasks' ! k)) tasks' = Some (tasks' ! k)"
      using d' k by (intro find_task_nth) (simp_all add: tasks'_def)
    then have sel': "find (\<lambda>t. task_id t = i) tasks' = Some (updated u (tasks ! k))"
      using k i by (simp add: tasks'_def)
    have first: "find (\<lambda>t. task_id t = i) tasks = Some (tasks ! k)"
      using find_task_nth [OF d k] i by simp
    have "update_task tasks i u = (Inr (updated u (tasks ! k)), ts)"
      using sel' by (simp add: update_task_def sel first Let_def ts_def [symmetric] same)
    then show ?thesis by (simp add: same tasks'_def)
  qed
  from absent present exact show ?thesis
    by (cases "i \<in> task_id ` set tasks") auto
qed

text \<open>
  Claim C9, at the id \<open>2 ^ 63\<close>. No task has this id, and the handler does not answer 404: the
  first SELECT raises \<open>OverflowError\<close>, which nothing catches, and the table is as it was.
\<close>

theorem update_task_overflow:
  "(9223372036854775808::int) \<notin> task_id `
      set [\<lparr>task_id = 1, title = ''buy milk'', description = None, completed = False\<rparr>,
           \<lparr>task_id = 2, title = ''write'', description = Some ''report'', completed = False\<rparr>] \<and>
   update_task
       [\<lparr>task_id = 1, title = ''buy milk'', description = None, completed = False\<rparr>,
        \<lparr>task_id = 2, title = ''write'', description = Some ''report'', completed = False\<rparr>]
       9223372036854775808
       \<lparr>upd_title = None, upd_description = None, upd_completed = Some True\<rparr> =
     (Inl OverflowError,
      [\<lparr>task_id = 1, title = ''buy milk'', description = None, completed = False\<rparr>,
       \<lparr>task_id = 2, title = ''write'', description = Some ''report'', completed = False\<rparr>])"
  by (simp add: update_task_def select_task_def bind_integer_def)

text \<open>The same body for ids within the range: one that no task has, and one that a task has.\<close>

lemma update_task_in_range_example:
  "update_task
       [\<lparr>task_id = 1, title = ''buy milk'', description = None, completed = False\<rparr>,
        \<lparr>task_id = 2, title = ''write'', description = Some ''report'', completed = False\<rparr>]
       7 \<lparr>upd_title = None, upd_description = None, upd_completed = Some True\<rparr> =
     (Inl TaskNotFound,
      [\<lparr>task_id = 1, title = ''buy milk'', description = None, completed = False\<rparr>,
       \<lparr>task_id = 2, title = ''write'', description = Some ''report'', completed = False\<rparr>]) \<and>
   update_task
       [\<lparr>task_id = 1, title = ''buy milk'', description = None, completed = False\<rparr>,
        \<lparr>task_id = 2, title = ''write'', description = Some ''report'', completed = False\<rparr>]
       2 \<lparr>upd_title = None, upd_description = None, upd_completed = Some True\<rparr> =
     (Inr \<lparr>task_id = 2, title = ''write'', description = Some ''report'', completed = True\<rparr>,
      [\<lparr>task_id = 1, title = ''buy milk'', description = None, completed = False\<rparr>,
       \<lparr>task_id = 2, title = ''write'', description = Some ''report'', completed = True\<rparr>])"
  using update_task_in_range
      [of 7 "[\<lparr>task_id = 1, title = ''buy milk'', description = None, completed = False\<rparr>,
            \<lparr>task_id = 2, title = ''write'', description = Some ''report'', completed = False\<rparr>]"
        "\<lparr>upd_title = None, upd_description = None, upd_completed = Some True\<rparr>" 1]
    update_task_in_range
      [of 2 "[\<lparr>task_id = 1, title = ''buy milk'', description = None, completed = False\<rparr>,
            \<lparr>task_id = 2, title = ''write'', description = Some ''report'', completed = False\<rparr>]"
        "\<lparr>upd_title = None, upd_description = None, upd_completed = Some True\<rparr>" 1]
  by (simp add: updated_def)

end
